theory Spec2Isabelle
  imports Complex_Main "HOL-Library.Multiset"
begin

section \<open>Values and the session state\<close>

text \<open>
  The screen \<^verbatim>\<open>src/app/(tabs)/index.tsx\<close> keeps five pieces of React state
  (lines 11-15). A cell is whatever the spreadsheet parser produced: a string or a
  number. A JavaScript number is modelled by a rational (every finite double is one);
  NaN and the infinities are outside the model. The value \<^verbatim>\<open>undefined\<close> is \<open>None\<close>.

  A row is a JavaScript array: it has a slot for each position, and a slot holds a
  cell or nothing (a hole of the array, which is what a blank cell of the sheet can
  come out as; a blank line can come out as the array with no slot). Reading an empty
  slot gives \<^verbatim>\<open>undefined\<close>; \<^verbatim>\<open>some\<close> and \<^verbatim>\<open>indexOf\<close> pass over it;
  \<^verbatim>\<open>join\<close> writes nothing for it. A row without empty slots is \<open>dense\<close> of its
  cells.

  The cast \<^verbatim>\<open>as string[]\<close> of line 43 is not checked at run time, so the header row
  is a row like any other; a column called \<^verbatim>\<open>Age\<close> is the cell \<open>Str ''Age''\<close>.
\<close>

type_synonym number = rat

datatype cell = Str string | Num number

type_synonym row = "cell option list"

fun cells :: "row \<Rightarrow> cell list" where
  "cells [] = []"
| "cells (None # r) = cells r"
| "cells (Some c # r) = c # cells r"

definition dense :: "cell list \<Rightarrow> row" where
  "dense cs = map Some cs"

datatype sort_direction = Asc | Desc

record sort_config =
  key :: "cell option"
  direction :: sort_direction

record session =
  data :: "row list"
  columns :: "row option"
  searchQuery :: string
  sortConfig :: sort_config
  loading :: bool

definition initial :: session where
  "initial =
     \<lparr>data = [], columns = Some [], searchQuery = [],
      sortConfig = \<lparr>key = None, direction = Asc\<rparr>, loading = False\<rparr>"

section \<open>Exceptions and the console\<close>

datatype error = ParseError | ReadError | PickerError | ShareError | TypeError

datatype log =
    ErrorPickingFile error
  | ErrorProcessingFile error
  | ErrorExportingCSV error

section \<open>What the JavaScript engine and the libraries provide\<close>

text \<open>
  Four built-ins depend on Unicode tables, the locale, the printing of doubles or the
  engine's choice of algorithm. They are parameters of the model: \<^verbatim>\<open>String(n)\<close>
  for a number \<open>n\<close>, \<^verbatim>\<open>a.localeCompare(b)\<close>, \<^verbatim>\<open>s.toLowerCase()\<close>, and
  \<^verbatim>\<open>rows.sort(cmp)\<close> on an array of rows, whose result on a copy of the array is
  \<open>arraySort cmp rows\<close>.
\<close>

record engine =
  numToString :: "number \<Rightarrow> string"
  localeCompare :: "string \<Rightarrow> string \<Rightarrow> number"
  toLowerCase :: "string \<Rightarrow> string"
  arraySort :: "(row \<Rightarrow> row \<Rightarrow> number) \<Rightarrow> row list \<Rightarrow> row list"

text \<open>
  The spreadsheet library: \<^verbatim>\<open>XLSX.read\<close> gives a workbook or throws;
  \<^verbatim>\<open>XLSX.utils.sheet_to_json(ws, {header: 1})\<close> gives the grid of a worksheet, an
  array of rows, or throws. The worksheet type is the library's own.
\<close>

record 'ws workbook =
  SheetNames :: "string list"
  Sheets :: "string \<rightharpoonup> 'ws"

record 'ws xlsx =
  read :: "string \<Rightarrow> error + 'ws workbook"
  sheet_to_json :: "'ws option \<Rightarrow> error + row list"

section \<open>Loading: processFile (lines 37-51)\<close>

text \<open>
  The result is the state after the call and what \<^verbatim>\<open>console.error\<close> printed.
  \<^verbatim>\<open>jsonData[0]\<close> of an empty array is \<^verbatim>\<open>undefined\<close>; \<^verbatim>\<open>jsonData.slice(1)\<close>
  of an empty array is empty. \<^verbatim>\<open>workbook.SheetNames[0]\<close> of a workbook with no
  sheet is \<^verbatim>\<open>undefined\<close>, and so is the worksheet looked up under it (line 40).
\<close>

definition first_sheet :: "'ws workbook \<Rightarrow> 'ws option" where
  "first_sheet workbook =
     (case SheetNames workbook of [] \<Rightarrow> None | n # _ \<Rightarrow> Sheets workbook n)"

definition processFile :: "'ws xlsx \<Rightarrow> string \<Rightarrow> session \<Rightarrow> session \<times> log list" where
  "processFile X content s =
     (case read X content of
        Inl e \<Rightarrow> (s, [ErrorProcessingFile e])
      | Inr workbook \<Rightarrow>
          (case sheet_to_json X (first_sheet workbook) of
             Inl e \<Rightarrow> (s, [ErrorProcessingFile e])
           | Inr jsonData \<Rightarrow>
               (let headers = (case jsonData of [] \<Rightarrow> None | h # _ \<Rightarrow> Some h);
                    rows = drop 1 jsonData
                in (s\<lparr>columns := headers, data := rows\<rparr>, []))))"

section \<open>The filter: filteredData (lines 75-79)\<close>

text \<open>
  \<^verbatim>\<open>String(v)\<close>: a string is itself, a number is printed by the engine, and
  \<^verbatim>\<open>undefined\<close> is the text \<^verbatim>\<open>undefined\<close>.
\<close>

fun toString :: "engine \<Rightarrow> cell \<Rightarrow> string" where
  "toString E (Str s) = s"
| "toString E (Num n) = numToString E n"

fun toStringU :: "engine \<Rightarrow> cell option \<Rightarrow> string" where
  "toStringU E None = ''undefined''"
| "toStringU E (Some c) = toString E c"

text \<open>\<^verbatim>\<open>s.startsWith(q)\<close> and \<^verbatim>\<open>s.includes(q)\<close>, by scanning \<open>s\<close> from the left.\<close>

fun startsWith :: "string \<Rightarrow> string \<Rightarrow> bool" where
  "startsWith s [] = True"
| "startsWith [] (q # qs) = False"
| "startsWith (c # cs) (q # qs) = (c = q \<and> startsWith cs qs)"

fun str_includes :: "string \<Rightarrow> string \<Rightarrow> bool" where
  "str_includes [] q = (q = [])"
| "str_includes (c # cs) q = (startsWith (c # cs) q \<or> str_includes cs q)"

text \<open>
  \<^verbatim>\<open>row.some(p)\<close> asks \<open>p\<close> of the cells of the row, so it is \<open>list_ex p (cells row)\<close>:
  false on a row with no cell.
\<close>

definition filteredData :: "engine \<Rightarrow> session \<Rightarrow> row list" where
  "filteredData E s =
     filter (\<lambda>row. list_ex (\<lambda>cell.
               str_includes (toLowerCase E (toString E cell)) (toLowerCase E (searchQuery s)))
               (cells row))
       (data s)"

section \<open>The export: exportToCSV (lines 81-94)\<close>

text \<open>
  \<^verbatim>\<open>xs.join(sep)\<close> on an array of strings, and what \<^verbatim>\<open>row.join(',')\<close> writes for
  a slot of a row: the \<^verbatim>\<open>String\<close> form of its cell, or nothing when it is empty.
\<close>

fun join :: "string \<Rightarrow> string list \<Rightarrow> string" where
  "join sep [] = []"
| "join sep [x] = x"
| "join sep (x # y # ys) = x @ sep @ join sep (y # ys)"

fun slotString :: "engine \<Rightarrow> cell option \<Rightarrow> string" where
  "slotString E None = []"
| "slotString E (Some c) = toString E c"

definition comma :: char where
  "comma = CHR '',''"

definition newline :: char where
  "newline = CHR 0x0A"

definition csvContent :: "engine \<Rightarrow> row \<Rightarrow> row list \<Rightarrow> string" where
  "csvContent E cols rows =
     join [newline]
       (join [comma] (map (slotString E) cols) #
        map (\<lambda>row. join [comma] (map (slotString E) row)) rows)"

text \<open>
  The text handed to \<^verbatim>\<open>FileSystem.writeAsStringAsync\<close>, if that call is reached, and
  what the \<^verbatim>\<open>catch\<close> of line 91 printed. \<^verbatim>\<open>columns.join\<close> throws a TypeError when
  \<^verbatim>\<open>columns\<close> is \<^verbatim>\<open>undefined\<close>. The write and the share that follow belong to the
  platform and do not change the text.
\<close>

definition exportToCSV :: "engine \<Rightarrow> session \<Rightarrow> string option \<times> log list" where
  "exportToCSV E s =
     (case columns s of
        None \<Rightarrow> (None, [ErrorExportingCSV TypeError])
      | Some cols \<Rightarrow> (Some (csvContent E cols (filteredData E s)), []))"

section \<open>Sorting: handleSort (lines 53-73)\<close>

text \<open>
  \<^verbatim>\<open>xs.indexOf(x)\<close> is the first position that holds \<open>x\<close>, or \<open>-1\<close>; \<^verbatim>\<open>xs[i]\<close> is
  \<^verbatim>\<open>undefined\<close> when \<open>i\<close> is negative or past the end, or the slot is empty.
\<close>

fun indexOf :: "'a option list \<Rightarrow> 'a \<Rightarrow> int" where
  "indexOf [] x = - 1"
| "indexOf (y # ys) x =
     (if y = Some x then 0 else (let i = indexOf ys x in if i < 0 then - 1 else i + 1))"

definition elem_at :: "'a option list \<Rightarrow> int \<Rightarrow> 'a option" where
  "elem_at xs i = (if 0 \<le> i \<and> i < int (length xs) then xs ! nat i else None)"

text \<open>The comparator of lines 60-70, for the columns, key and direction it closes over.\<close>

definition compare_rows ::
  "engine \<Rightarrow> row \<Rightarrow> cell \<Rightarrow> sort_direction \<Rightarrow> row \<Rightarrow> row \<Rightarrow> number" where
  "compare_rows E cols k d a b =
     (let aValue = elem_at a (indexOf cols k);
          bValue = elem_at b (indexOf cols k)
      in case (aValue, bValue) of
           (Some (Num x), Some (Num y)) \<Rightarrow> (if d = Asc then x - y else y - x)
         | _ \<Rightarrow>
             (if d = Asc
              then localeCompare E (toStringU E aValue) (toStringU E bValue)
              else localeCompare E (toStringU E bValue) (toStringU E aValue)))"

text \<open>
  The result is the state after the call and the exception that left it, if any.
  \<^verbatim>\<open>setSortConfig\<close> runs first (line 58). \<^verbatim>\<open>[...data].sort(cmp)\<close> is the engine's
  sort of a copy of the rows. When \<^verbatim>\<open>columns\<close> is \<^verbatim>\<open>undefined\<close>,
  \<^verbatim>\<open>columns.indexOf\<close> throws in the first call of the comparator, which the sort makes
  when there are two rows or more; \<^verbatim>\<open>setData\<close> is then not reached.
\<close>

definition handleSort :: "engine \<Rightarrow> cell \<Rightarrow> session \<Rightarrow> session \<times> error option" where
  "handleSort E k s =
     (let d = (if key (sortConfig s) = Some k \<and> direction (sortConfig s) = Asc
               then Desc else Asc);
          s1 = s\<lparr>sortConfig := \<lparr>key = Some k, direction = d\<rparr>\<rparr>
      in case columns s of
           None \<Rightarrow>
             (if length (data s) \<le> 1 then (s1\<lparr>data := data s\<rparr>, None)
              else (s1, Some TypeError))
         | Some cols \<Rightarrow>
             (s1\<lparr>data := arraySort E (compare_rows E cols k d) (data s)\<rparr>, None))"

section \<open>The table on the screen (lines 119-154)\<close>

text \<open>
  What a render shows of the table: the spinner while loading, else the header row
  and the filtered rows. \<^verbatim>\<open>columns.map\<close> (line 125) throws a TypeError when
  \<^verbatim>\<open>columns\<close> is \<^verbatim>\<open>undefined\<close>.
\<close>

datatype view = Spinner | DataTable row "row list"

definition render :: "engine \<Rightarrow> session \<Rightarrow> error + view" where
  "render E s =
     (if loading s then Inr Spinner
      else case columns s of
             None \<Rightarrow> Inl TypeError
           | Some cols \<Rightarrow> Inr (DataTable cols (filteredData E s)))"

section \<open>Picking a file: pickFile (lines 17-35)\<close>

text \<open>
  pickFile is asynchronous: it runs to its first \<^verbatim>\<open>await\<close> (the picker), later to its
  second (the read of the file), later to its end. A call that waits at an
  \<^verbatim>\<open>await\<close> is in flight. The app is the session, the console and the calls in flight;
  an event is a press of the upload button (line 106) or the settling of the promise
  that the call at a position waits for. An event that no call waits for cannot
  happen (\<open>None\<close>).
\<close>

datatype pending = AwaitingPicker | AwaitingRead

record app =
  sess :: session
  console :: "log list"
  in_flight :: "pending list"

datatype event =
    Press
  | PickerCanceled nat
  | PickerPicked nat
  | PickerThrew nat error
  | ReadDone nat string
  | ReadThrew nat error

definition waits :: "app \<Rightarrow> nat \<Rightarrow> pending \<Rightarrow> bool" where
  "waits a i p = (i < length (in_flight a) \<and> in_flight a ! i = p)"

text \<open>
  pickFile up to its first \<^verbatim>\<open>await\<close> (lines 18-20): the flag is set, whatever it
  was, and the call waits for the picker.
\<close>

definition pickFile :: "app \<Rightarrow> app" where
  "pickFile a =
     a\<lparr>sess := (sess a)\<lparr>loading := True\<rparr>, in_flight := in_flight a @ [AwaitingPicker]\<rparr>"

text \<open>The \<^verbatim>\<open>finally\<close> of line 32 and the end of the call at position \<open>i\<close>.\<close>

definition finish :: "nat \<Rightarrow> app \<Rightarrow> app" where
  "finish i a =
     a\<lparr>sess := (sess a)\<lparr>loading := False\<rparr>,
       in_flight := take i (in_flight a) @ drop (Suc i) (in_flight a)\<rparr>"

fun fire :: "'ws xlsx \<Rightarrow> event \<Rightarrow> app \<Rightarrow> app option" where
  "fire X Press a = Some (pickFile a)"
| "fire X (PickerCanceled i) a =
     (if waits a i AwaitingPicker then Some (finish i a) else None)"
| "fire X (PickerPicked i) a =
     (if waits a i AwaitingPicker
      then Some (a\<lparr>in_flight := (in_flight a)[i := AwaitingRead]\<rparr>) else None)"
| "fire X (PickerThrew i e) a =
     (if waits a i AwaitingPicker
      then Some (finish i (a\<lparr>console := console a @ [ErrorPickingFile e]\<rparr>)) else None)"
| "fire X (ReadDone i content) a =
     (if waits a i AwaitingRead
      then (case processFile X content (sess a) of
              (s', out) \<Rightarrow> Some (finish i (a\<lparr>sess := s', console := console a @ out\<rparr>)))
      else None)"
| "fire X (ReadThrew i e) a =
     (if waits a i AwaitingRead
      then Some (finish i (a\<lparr>console := console a @ [ErrorPickingFile e]\<rparr>)) else None)"

fun run :: "'ws xlsx \<Rightarrow> event list \<Rightarrow> app \<Rightarrow> app option" where
  "run X [] a = Some a"
| "run X (ev # evs) a = (case fire X ev a of None \<Rightarrow> None | Some a' \<Rightarrow> run X evs a')"

definition start :: app where
  "start = \<lparr>sess = initial, console = [], in_flight = []\<rparr>"

section \<open>The words of the specification\<close>

text \<open>
  A string contains a query as a case-insensitive substring when its lower-case form
  has the lower-case form of the query somewhere inside.
\<close>

definition ci_contains :: "engine \<Rightarrow> string \<Rightarrow> string \<Rightarrow> bool" where
  "ci_contains E s q = (\<exists>pre post. toLowerCase E s = pre @ toLowerCase E q @ post)"

text \<open>Flipping a direction.\<close>

fun flip :: "sort_direction \<Rightarrow> sort_direction" where
  "flip Asc = Desc"
| "flip Desc = Asc"

text \<open>
  The comparison rule: two numbers compare by their difference, every other pair by
  the locale-aware order of the string forms.
\<close>

fun compare_cells :: "engine \<Rightarrow> cell option \<Rightarrow> cell option \<Rightarrow> number" where
  "compare_cells E (Some (Num x)) (Some (Num y)) = x - y"
| "compare_cells E a b = localeCompare E (toStringU E a) (toStringU E b)"

text \<open>
  Re-parsing an exported text: splitting at a separator, as \<^verbatim>\<open>text.split(sep)\<close> does
  (the empty text gives one empty piece), first at newlines, then each line at commas.
\<close>

fun split_on :: "char \<Rightarrow> string \<Rightarrow> string list" where
  "split_on sep [] = [[]]"
| "split_on sep (c # cs) =
     (if c = sep then [] # split_on sep cs
      else (case split_on sep cs of
              [] \<Rightarrow> [[c]]
            | w # ws \<Rightarrow> (c # w) # ws))"

definition reparse :: "string \<Rightarrow> string list list" where
  "reparse text = map (split_on comma) (split_on newline text)"

text \<open>A string with no comma and no newline.\<close>

definition plain :: "string \<Rightarrow> bool" where
  "plain s = (comma \<notin> set s \<and> newline \<notin> set s)"

section \<open>The words of ECMAScript on Array.prototype.sort\<close>

text \<open>
  A comparator is consistent for a set of values when, on them, a value compares equal
  to itself, comparing equal is symmetric and transitive, and so are comparing less
  and comparing greater (transitive).
\<close>

definition consistent :: "('a \<Rightarrow> 'a \<Rightarrow> number) \<Rightarrow> 'a set \<Rightarrow> bool" where
  "consistent cmp S =
     (\<forall>a \<in> S. \<forall>b \<in> S. \<forall>c \<in> S.
        cmp a a = 0 \<and>
        (cmp a b = 0 \<longrightarrow> cmp b a = 0) \<and>
        (cmp a b = 0 \<and> cmp b c = 0 \<longrightarrow> cmp a c = 0) \<and>
        (cmp a b < 0 \<and> cmp b c < 0 \<longrightarrow> cmp a c < 0) \<and>
        (0 < cmp a b \<and> 0 < cmp b c \<longrightarrow> 0 < cmp a c))"

text \<open>
  \<open>ys\<close> is \<open>xs\<close> sorted stably: \<open>ys\<close> rearranges \<open>xs\<close> by a permutation \<open>p\<close> of
  the positions, no element of \<open>ys\<close> compares greater than a later one, and two
  elements of \<open>xs\<close> that compare equal stand in \<open>ys\<close> in their order in \<open>xs\<close>.
\<close>

definition sorted_stably :: "('a \<Rightarrow> 'a \<Rightarrow> number) \<Rightarrow> 'a list \<Rightarrow> 'a list \<Rightarrow> bool" where
  "sorted_stably cmp xs ys =
     (\<exists>p. mset p = mset [0..<length xs] \<and>
          ys = map (nth xs) p \<and>
          sorted_wrt (\<lambda>a b. cmp a b \<le> 0) ys \<and>
          (\<forall>i j. i < j \<longrightarrow> j < length xs \<longrightarrow> cmp (xs ! i) (xs ! j) = 0 \<longrightarrow>
             (\<exists>u v. u < v \<and> v < length p \<and> p ! u = i \<and> p ! v = j)))"

text \<open>
  What ECMAScript (2019 and later) requires of an engine: for a comparator that is
  consistent for the elements, the sort sorts stably. For any other comparator the
  order is left to the engine.
\<close>

definition conforms :: "engine \<Rightarrow> bool" where
  "conforms E = (\<forall>cmp xs. consistent cmp (set xs) \<longrightarrow> sorted_stably cmp xs (arraySort E cmp xs))"

section \<open>A notion for the proof of stability\<close>

text \<open>
  For rows tagged with their positions before the sort: \<open>u\<close> may stand before \<open>v\<close>
  after the sort although it stood behind it before, only if the comparator, given
  them in their old order, returned a positive number.
\<close>

definition swapped_only_if_greater ::
  "('a \<Rightarrow> 'a \<Rightarrow> number) \<Rightarrow> nat \<times> 'a \<Rightarrow> nat \<times> 'a \<Rightarrow> bool" where
  "swapped_only_if_greater c u v = (fst v < fst u \<longrightarrow> 0 < c (snd v) (snd u))"

section \<open>Test doubles for concrete runs\<close>

text \<open>
  A spreadsheet library that knows a finite table of file contents and the grid of the
  single sheet of each, and throws on every other content.
\<close>

definition table_xlsx :: "(string \<rightharpoonup> row list) \<Rightarrow> (row list) xlsx" where
  "table_xlsx fs =
     \<lparr>read = (\<lambda>content. case fs content of
                 None \<Rightarrow> Inl ParseError
               | Some grid \<Rightarrow> Inr \<lparr>SheetNames = [''Sheet1''], Sheets = [''Sheet1'' \<mapsto> grid]\<rparr>),
      sheet_to_json = (\<lambda>ws. case ws of None \<Rightarrow> Inr [] | Some grid \<Rightarrow> Inr grid)\<rparr>"

text \<open>
  An engine for ASCII texts and whole numbers: numbers print in decimal, strings
  compare by their code units, and \<open>A\<close> to \<open>Z\<close> have lower-case forms.
\<close>

function show_nat :: "nat \<Rightarrow> string" where
  "show_nat n =
     (if n < 10 then [''0123456789'' ! n]
      else show_nat (n div 10) @ [''0123456789'' ! (n mod 10)])"
  by pat_completeness auto
termination
  by (relation "measure id") auto

declare show_nat.simps [simp del]

definition show_number :: "number \<Rightarrow> string" where
  "show_number n =
     (if n < 0 then CHR ''-'' # show_nat (nat \<lfloor>- n\<rfloor>) else show_nat (nat \<lfloor>n\<rfloor>))"

definition lower_char :: "char \<Rightarrow> char" where
  "lower_char c =
     (case map_of (zip ''ABCDEFGHIJKLMNOPQRSTUVWXYZ'' ''abcdefghijklmnopqrstuvwxyz'') c of
        None \<Rightarrow> c
      | Some l \<Rightarrow> l)"

fun code_unit_compare :: "string \<Rightarrow> string \<Rightarrow> number" where
  "code_unit_compare [] [] = 0"
| "code_unit_compare [] (y # ys) = - 1"
| "code_unit_compare (x # xs) [] = 1"
| "code_unit_compare (x # xs) (y # ys) =
     (if (of_char x :: nat) < of_char y then - 1
      else if (of_char y :: nat) < of_char x then 1
      else code_unit_compare xs ys)"

text \<open>
  Two sorts. The insertion sort puts \<open>x\<close> before the first \<open>y\<close> of the sorted rest
  with \<open>cmp x y \<le> 0\<close>. The run sort looks for a run first, as the merge sorts of
  engines do: an array in which every element compares less than the one before it
  is reversed; any other array is sorted by insertion.
\<close>

fun insort_cmp :: "('a \<Rightarrow> 'a \<Rightarrow> number) \<Rightarrow> 'a \<Rightarrow> 'a list \<Rightarrow> 'a list" where
  "insort_cmp cmp x [] = [x]"
| "insort_cmp cmp x (y # ys) =
     (if cmp x y \<le> 0 then x # y # ys else y # insort_cmp cmp x ys)"

definition insertion_sort :: "('a \<Rightarrow> 'a \<Rightarrow> number) \<Rightarrow> 'a list \<Rightarrow> 'a list" where
  "insertion_sort cmp xs = foldr (insort_cmp cmp) xs []"

fun descending :: "('a \<Rightarrow> 'a \<Rightarrow> number) \<Rightarrow> 'a list \<Rightarrow> bool" where
  "descending cmp (x # y # zs) = (cmp y x < 0 \<and> descending cmp (y # zs))"
| "descending cmp zs = True"

definition run_sort :: "('a \<Rightarrow> 'a \<Rightarrow> number) \<Rightarrow> 'a list \<Rightarrow> 'a list" where
  "run_sort cmp xs = (if descending cmp xs then rev xs else insertion_sort cmp xs)"

definition ascii_engine :: engine where
  "ascii_engine =
     \<lparr>numToString = show_number, localeCompare = code_unit_compare,
      toLowerCase = map lower_char, arraySort = insertion_sort\<rparr>"

definition run_engine :: engine where
  "run_engine = ascii_engine\<lparr>arraySort := run_sort\<rparr>"

text \<open>
  Sheets: the one of the specification's scenarios; one with two rows of the same
  age; one with a blank line and a blank cell; one whose first line is blank; one
  with no line; and one whose column mixes numbers and a text.
\<close>

definition people :: "row list" where
  "people =
     [dense [Str ''Name'', Str ''Age''],
      dense [Str ''Bob'', Num 30], dense [Str ''Ann'', Num 25]]"

definition staff :: "row list" where
  "staff =
     [dense [Str ''Name'', Str ''Age''],
      dense [Str ''Bob'', Num 30], dense [Str ''Ann'', Num 25], dense [Str ''Cy'', Num 30]]"

definition gappy :: "row list" where
  "gappy =
     [dense [Str ''Name'', Str ''Age''],
      dense [Str ''Bob'', Num 30], [], [None, Some (Num 25)]]"

definition headless :: "row list" where
  "headless = [[], dense [Str ''a'']]"

definition mixed :: "row list" where
  "mixed = [dense [Str ''Code''], dense [Num 10], dense [Num 9], dense [Str ''10'']]"

definition files :: "string \<rightharpoonup> row list" where
  "files =
     [''people'' \<mapsto> people, ''staff'' \<mapsto> staff, ''gappy'' \<mapsto> gappy,
      ''headless'' \<mapsto> headless, ''empty'' \<mapsto> [], ''mixed'' \<mapsto> mixed]"

definition loaded :: "string \<Rightarrow> session" where
  "loaded content = fst (processFile (table_xlsx files) content initial)"

section \<open>Evaluating the test doubles\<close>

lemma read_files:
  "read (table_xlsx fs) content =
     (case fs content of
        None \<Rightarrow> Inl ParseError
      | Some grid \<Rightarrow> Inr \<lparr>SheetNames = [''Sheet1''], Sheets = [''Sheet1'' \<mapsto> grid]\<rparr>)"
  by (simp add: table_xlsx_def)

lemma processFile_files:
  "processFile (table_xlsx fs) content s =
     (case fs content of
        None \<Rightarrow> (s, [ErrorProcessingFile ParseError])
      | Some grid \<Rightarrow>
          (s\<lparr>columns := (case grid of [] \<Rightarrow> None | h # _ \<Rightarrow> Some h), data := drop 1 grid\<rparr>, []))"
  by (simp add: processFile_def table_xlsx_def first_sheet_def split: option.splits)

lemma loaded_people:
  "loaded ''people'' =
     \<lparr>data = [dense [Str ''Bob'', Num 30], dense [Str ''Ann'', Num 25]],
      columns = Some (dense [Str ''Name'', Str ''Age'']), searchQuery = [],
      sortConfig = \<lparr>key = None, direction = Asc\<rparr>, loading = False\<rparr>"
  by (simp add: loaded_def processFile_files files_def people_def initial_def)

lemma loaded_staff:
  "loaded ''staff'' =
     \<lparr>data = [dense [Str ''Bob'', Num 30], dense [Str ''Ann'', Num 25], dense [Str ''Cy'', Num 30]],
      columns = Some (dense [Str ''Name'', Str ''Age'']), searchQuery = [],
      sortConfig = \<lparr>key = None, direction = Asc\<rparr>, loading = False\<rparr>"
  by (simp add: loaded_def processFile_files files_def staff_def initial_def)

lemma loaded_gappy:
  "loaded ''gappy'' =
     \<lparr>data = [dense [Str ''Bob'', Num 30], [], [None, Some (Num 25)]],
      columns = Some (dense [Str ''Name'', Str ''Age'']), searchQuery = [],
      sortConfig = \<lparr>key = None, direction = Asc\<rparr>, loading = False\<rparr>"
  by (simp add: loaded_def processFile_files files_def gappy_def initial_def)

lemma loaded_headless:
  "loaded ''headless'' =
     \<lparr>data = [dense [Str ''a'']],
      columns = Some [], searchQuery = [],
      sortConfig = \<lparr>key = None, direction = Asc\<rparr>, loading = False\<rparr>"
  by (simp add: loaded_def processFile_files files_def headless_def initial_def)

lemma ascii_engine_simps:
  "numToString ascii_engine = show_number"
  "localeCompare ascii_engine = code_unit_compare"
  "toLowerCase ascii_engine = map lower_char"
  "arraySort ascii_engine = insertion_sort"
  by (simp_all add: ascii_engine_def)

lemma run_engine_simps:
  "numToString run_engine = show_number"
  "localeCompare run_engine = code_unit_compare"
  "toLowerCase run_engine = map lower_char"
  "arraySort run_engine = run_sort"
  by (simp_all add: run_engine_def ascii_engine_def)

lemma cells_dense: "cells (dense cs) = cs"
  by (induction cs) (simp_all add: dense_def)

section \<open>Loading\<close>

text \<open>
  C1 (as amended). processFile writes columns and data only: after every load,
  successful or not, the filter query and the sort state are what they were before.
\<close>

theorem processFile_keeps_filter_and_sort:
  "searchQuery (fst (processFile X content s)) = searchQuery s \<and>
   sortConfig (fst (processFile X content s)) = sortConfig s"
  by (simp add: processFile_def Let_def split: sum.splits)

text \<open>
  C1 as stated fails: with the query \<open>ann\<close> and a descending sort on \<open>Age\<close> set,
  a successful load of the people sheet (nothing is printed on the console) leaves
  both in place.
\<close>

theorem processFile_no_reset_counterexample:
  "snd (processFile (table_xlsx files) ''people''
         (initial\<lparr>searchQuery := ''ann'',
                   sortConfig := \<lparr>key = Some (Str ''Age''), direction = Desc\<rparr>\<rparr>)) = [] \<and>
   searchQuery (fst (processFile (table_xlsx files) ''people''
         (initial\<lparr>searchQuery := ''ann'',
                   sortConfig := \<lparr>key = Some (Str ''Age''), direction = Desc\<rparr>\<rparr>))) = ''ann'' \<and>
   sortConfig (fst (processFile (table_xlsx files) ''people''
         (initial\<lparr>searchQuery := ''ann'',
                   sortConfig := \<lparr>key = Some (Str ''Age''), direction = Desc\<rparr>\<rparr>)))
     = \<lparr>key = Some (Str ''Age''), direction = Desc\<rparr>"
  by (simp add: processFile_files files_def people_def initial_def)

text \<open>
  C2. When the spreadsheet library throws, in \<^verbatim>\<open>XLSX.read\<close> or in
  \<^verbatim>\<open>sheet_to_json\<close>, processFile prints the error it caught and leaves the whole
  session, so its columns and rows, as it was.
\<close>

theorem processFile_parse_failure:
  assumes "read X content = Inl e \<or>
           (\<exists>workbook. read X content = Inr workbook \<and>
                        sheet_to_json X (first_sheet workbook) = Inl e)"
  shows "snd (processFile X content s) = [ErrorProcessingFile e] \<and>
         columns (fst (processFile X content s)) = columns s \<and>
         data (fst (processFile X content s)) = data s \<and>
         fst (processFile X content s) = s"
  using assms by (auto simp: processFile_def)

text \<open>
  A run of C2: unreadable bytes after the people sheet was loaded, and as the first
  load.
\<close>

theorem processFile_parse_failure_witness:
  "read (table_xlsx files) ''junk'' = Inl ParseError \<and>
   processFile (table_xlsx files) ''junk'' (loaded ''people'') =
     (loaded ''people'', [ErrorProcessingFile ParseError]) \<and>
   data (fst (processFile (table_xlsx files) ''junk'' (loaded ''people''))) =
     [dense [Str ''Bob'', Num 30], dense [Str ''Ann'', Num 25]] \<and>
   data (fst (processFile (table_xlsx files) ''junk'' initial)) = []"
proof -
  have h: "read (table_xlsx files) ''junk'' = Inl ParseError"
    by (simp add: read_files files_def)
  from processFile_parse_failure [OF disjI1 [OF h], of "loaded ''people''"]
    processFile_parse_failure [OF disjI1 [OF h], of initial]
  show ?thesis
    using h by (simp add: prod_eq_iff loaded_people) (simp add: initial_def)
qed

text \<open>
  C8, on the code: a sheet with no row makes \<^verbatim>\<open>jsonData[0]\<close> \<^verbatim>\<open>undefined\<close>, and
  that is what \<^verbatim>\<open>setColumns\<close> stores, not the empty list. processFile itself prints
  nothing, but the next render of the table throws a TypeError, and so does the export.
\<close>

theorem processFile_empty_sheet:
  "processFile (table_xlsx files) ''empty'' initial = (initial\<lparr>columns := None\<rparr>, []) \<and>
   columns (fst (processFile (table_xlsx files) ''empty'' initial)) \<noteq> Some [] \<and>
   data (fst (processFile (table_xlsx files) ''empty'' initial)) = [] \<and>
   render ascii_engine (fst (processFile (table_xlsx files) ''empty'' initial)) = Inl TypeError \<and>
   exportToCSV ascii_engine (fst (processFile (table_xlsx files) ''empty'' initial)) =
     (None, [ErrorExportingCSV TypeError])"
  by (simp add: processFile_files files_def initial_def render_def exportToCSV_def)

section \<open>The filter\<close>

lemma startsWith_iff: "startsWith s q \<longleftrightarrow> (\<exists>post. s = q @ post)"
  by (induction s q rule: startsWith.induct) auto

lemma str_includes_iff: "str_includes s q \<longleftrightarrow> (\<exists>pre post. s = pre @ q @ post)"
proof (induction s)
  case Nil
  then show ?case by auto
next
  case (Cons c cs)
  show ?case
  proof
    assume "str_includes (c # cs) q"
    then consider "startsWith (c # cs) q" | "str_includes cs q" by auto
    then show "\<exists>pre post. c # cs = pre @ q @ post"
    proof cases
      case 1
      then obtain post where "c # cs = q @ post" by (auto simp: startsWith_iff)
      then have "c # cs = [] @ q @ post" by simp
      then show ?thesis by blast
    next
      case 2
      then obtain pre post where "cs = pre @ q @ post" using Cons.IH by auto
      then have "c # cs = (c # pre) @ q @ post" by simp
      then show ?thesis by blast
    qed
  next
    assume "\<exists>pre post. c # cs = pre @ q @ post"
    then obtain pre post where e: "c # cs = pre @ q @ post" by auto
    show "str_includes (c # cs) q"
    proof (cases pre)
      case Nil
      with e have "startsWith (c # cs) q" by (auto simp: startsWith_iff)
      then show ?thesis by simp
    next
      case (Cons p ps)
      with e have "cs = ps @ q @ post" by simp
      then have "str_includes cs q" using Cons.IH by blast
      then show ?thesis by simp
    qed
  qed
qed

lemma str_includes_Nil: "str_includes s []"
  by (induction s) auto

lemma set_cells: "set (cells r) = {c. Some c \<in> set r}"
  by (induction r rule: cells.induct) auto

lemma cells_Nil_row: "cells r \<noteq> [] \<Longrightarrow> r \<noteq> []"
  by auto

lemma filteredData_rows_have_cells: "row \<in> set (filteredData E s) \<Longrightarrow> cells row \<noteq> []"
  by (auto simp: filteredData_def)

text \<open>
  C5. The projected rows are the rows of the dataset, in their order, that have a cell
  whose string form contains the query as a case-insensitive substring; so a row of
  the dataset is projected if and only if it has such a cell.
\<close>

theorem filteredData_any_cell_matches:
  "filteredData E s =
     filter (\<lambda>row. \<exists>cell \<in> set (cells row). ci_contains E (toString E cell) (searchQuery s))
       (data s) \<and>
   (row \<in> set (filteredData E s) \<longleftrightarrow>
      row \<in> set (data s) \<and>
      (\<exists>cell \<in> set (cells row). ci_contains E (toString E cell) (searchQuery s)))"
  by (simp add: filteredData_def ci_contains_def str_includes_iff list_ex_iff)

text \<open>A run of C5, the specification's scenario: the query \<open>ann\<close> keeps the row of Ann.\<close>

theorem filteredData_any_cell_matches_witness:
  "filteredData ascii_engine ((loaded ''people'')\<lparr>searchQuery := ''ann''\<rparr>) =
     [dense [Str ''Ann'', Num 25]] \<and>
   dense [Str ''Bob'', Num 30] \<notin>
     set (filteredData ascii_engine ((loaded ''people'')\<lparr>searchQuery := ''ann''\<rparr>))"
  using filteredData_any_cell_matches
    [of ascii_engine "(loaded ''people'')\<lparr>searchQuery := ''ann''\<rparr>" "dense [Str ''Bob'', Num 30]"]
  by (simp add: filteredData_def loaded_people cells_dense ascii_engine_simps lower_char_def
      show_number_def show_nat.simps) (simp add: dense_def)

text \<open>
  C10. A row with no cell is never projected, whatever the query, and the export is
  the export of the dataset without its rows with no cell.
\<close>

theorem filteredData_drops_empty_rows:
  "(\<forall>row \<in> set (filteredData E s). cells row \<noteq> []) \<and>
   [] \<notin> set (filteredData E s) \<and>
   filteredData E (s\<lparr>data := filter (\<lambda>row. cells row \<noteq> []) (data s)\<rparr>) = filteredData E s \<and>
   exportToCSV E (s\<lparr>data := filter (\<lambda>row. cells row \<noteq> []) (data s)\<rparr>) = exportToCSV E s"
proof -
  have f: "filteredData E (s\<lparr>data := filter (\<lambda>row. cells row \<noteq> []) (data s)\<rparr>) = filteredData E s"
    by (auto simp: filteredData_def intro: filter_cong)
  then have "exportToCSV E (s\<lparr>data := filter (\<lambda>row. cells row \<noteq> []) (data s)\<rparr>) = exportToCSV E s"
    by (simp add: exportToCSV_def split: option.splits)
  moreover have "\<forall>row \<in> set (filteredData E s). cells row \<noteq> []"
    using filteredData_rows_have_cells by blast
  moreover from this have "[] \<notin> set (filteredData E s)"
    by fastforce
  ultimately show ?thesis using f by simp
qed

text \<open>A run of C10: the blank line of the gappy sheet, under the empty query.\<close>

theorem filteredData_drops_empty_rows_witness:
  "[] \<in> set (data (loaded ''gappy'')) \<and>
   filteredData ascii_engine (loaded ''gappy'') =
     [dense [Str ''Bob'', Num 30], [None, Some (Num 25)]] \<and>
   exportToCSV ascii_engine (loaded ''gappy'') = (Some ''Name,Age\<newline>Bob,30\<newline>,25'', [])"
  using filteredData_drops_empty_rows [of ascii_engine "loaded ''gappy''"]
  by (simp add: filteredData_def exportToCSV_def csvContent_def loaded_gappy dense_def
      ascii_engine_simps lower_char_def newline_def comma_def show_number_def show_nat.simps)

text \<open>
  C7 (as amended). After a successful load of a grid, under the empty query, the
  projection is the body of the grid (all rows but the first) without its rows with
  no cell, in the order of the grid; a body with no such row is projected unchanged.
  The engine's lower-case form of the empty string is taken to be empty.
\<close>

theorem projection_after_load:
  assumes "read X content = Inr workbook"
    and "sheet_to_json X (first_sheet workbook) = Inr jsonData"
    and "searchQuery s = []"
    and "toLowerCase E [] = []"
  shows "filteredData E (fst (processFile X content s)) =
           filter (\<lambda>row. cells row \<noteq> []) (drop 1 jsonData) \<and>
         ((\<forall>row \<in> set (drop 1 jsonData). cells row \<noteq> []) \<longrightarrow>
            filteredData E (fst (processFile X content s)) = drop 1 jsonData)"
proof -
  have "list_ex (\<lambda>cell. str_includes (toLowerCase E (toString E cell)) []) cs \<longleftrightarrow> cs \<noteq> []" for cs
    by (cases cs) (simp_all add: str_includes_Nil)
  then have "filteredData E (fst (processFile X content s)) =
      filter (\<lambda>row. cells row \<noteq> []) (drop 1 jsonData)"
    using assms by (simp add: processFile_def filteredData_def Let_def)
  moreover have "(\<forall>row \<in> set (drop 1 jsonData). cells row \<noteq> []) \<longrightarrow>
      filter (\<lambda>row. cells row \<noteq> []) (drop 1 jsonData) = drop 1 jsonData"
    by (auto intro: filter_True)
  ultimately show ?thesis by simp
qed

text \<open>A run of C7 as amended: the people sheet, loaded into the initial session.\<close>

theorem projection_after_load_witness:
  "read (table_xlsx files) ''people'' =
     Inr \<lparr>SheetNames = [''Sheet1''], Sheets = [''Sheet1'' \<mapsto> people]\<rparr> \<and>
   sheet_to_json (table_xlsx files)
     (first_sheet \<lparr>SheetNames = [''Sheet1''], Sheets = [''Sheet1'' \<mapsto> people]\<rparr>) = Inr people \<and>
   searchQuery initial = [] \<and>
   toLowerCase ascii_engine [] = [] \<and>
   filteredData ascii_engine (fst (processFile (table_xlsx files) ''people'' initial)) =
     [dense [Str ''Bob'', Num 30], dense [Str ''Ann'', Num 25]]"
proof -
  let ?wb = "\<lparr>SheetNames = [''Sheet1''], Sheets = [''Sheet1'' \<mapsto> people]\<rparr>"
  have 1: "read (table_xlsx files) ''people'' = Inr ?wb"
    by (simp add: read_files files_def)
  have 2: "sheet_to_json (table_xlsx files) (first_sheet ?wb) = Inr people"
    by (simp add: table_xlsx_def first_sheet_def)
  have 3: "searchQuery initial = []"
    by (simp add: initial_def)
  have 4: "toLowerCase ascii_engine [] = []"
    by (simp add: ascii_engine_simps)
  from projection_after_load [OF 1 2 3 4] 1 2 3 4 show ?thesis
    by (simp add: people_def cells_dense)
qed

text \<open>
  C7 as stated fails: the body of the gappy sheet has a blank line; with the empty
  query and no sort set, the projection after the load is not the body.
\<close>

theorem projection_after_load_counterexample:
  "searchQuery initial = [] \<and>
   key (sortConfig initial) = None \<and>
   snd (processFile (table_xlsx files) ''gappy'' initial) = [] \<and>
   data (fst (processFile (table_xlsx files) ''gappy'' initial)) = drop 1 gappy \<and>
   drop 1 gappy = [dense [Str ''Bob'', Num 30], [], [None, Some (Num 25)]] \<and>
   filteredData ascii_engine (fst (processFile (table_xlsx files) ''gappy'' initial)) =
     [dense [Str ''Bob'', Num 30], [None, Some (Num 25)]] \<and>
   filteredData ascii_engine (fst (processFile (table_xlsx files) ''gappy'' initial)) \<noteq>
     drop 1 gappy"
  by (simp add: processFile_files files_def gappy_def initial_def filteredData_def dense_def
      ascii_engine_simps str_includes_Nil)

section \<open>The export\<close>

lemma split_on_plain: "sep \<notin> set x \<Longrightarrow> split_on sep x = [x]"
  by (induction x) (auto split: list.splits)

lemma split_on_append:
  "sep \<notin> set x \<Longrightarrow> split_on sep (x @ sep # rest) = x # split_on sep rest"
  by (induction x) (auto split: list.splits)

lemma split_on_join:
  "xs \<noteq> [] \<Longrightarrow> \<forall>x \<in> set xs. sep \<notin> set x \<Longrightarrow> split_on sep (join [sep] xs) = xs"
proof (induction "[sep]" xs rule: join.induct)
  case 1
  then show ?case by simp
next
  case (2 x)
  then show ?case by (simp add: split_on_plain)
next
  case (3 x y ys)
  then show ?case by (simp add: split_on_append)
qed

lemma set_join: "set (join sep xs) \<subseteq> set sep \<union> \<Union> (set ` set xs)"
  by (induction sep xs rule: join.induct) auto

lemma comma_not_newline: "comma \<noteq> newline"
  by (simp add: comma_def newline_def)

lemma plain_slotString:
  assumes "\<forall>c \<in> set (cells r). plain (toString E c)" and "x \<in> set r"
  shows "plain (slotString E x)"
proof (cases x)
  case None
  then show ?thesis by (simp add: plain_def)
next
  case (Some c)
  with assms(2) have "c \<in> set (cells r)" by (simp add: set_cells)
  with assms(1) Some show ?thesis by simp
qed

lemma line_no_newline:
  assumes "\<forall>c \<in> set (cells r). plain (toString E c)"
  shows "newline \<notin> set (join [comma] (map (slotString E) r))"
proof
  assume "newline \<in> set (join [comma] (map (slotString E) r))"
  then have "newline \<in> set [comma] \<union> \<Union> (set ` set (map (slotString E) r))"
    using set_join by blast
  then obtain x where "x \<in> set r" and "newline \<in> set (slotString E x)"
    using comma_not_newline by auto
  then show False
    using plain_slotString [OF assms] by (auto simp: plain_def)
qed

lemma line_roundtrip:
  assumes "r \<noteq> []" and "\<forall>c \<in> set (cells r). plain (toString E c)"
  shows "split_on comma (join [comma] (map (slotString E) r)) = map (slotString E) r"
proof (rule split_on_join)
  show "map (slotString E) r \<noteq> []" using assms(1) by simp
  show "\<forall>x \<in> set (map (slotString E) r). comma \<notin> set x"
    using plain_slotString [OF assms(2)] by (auto simp: plain_def)
qed

text \<open>
  C6 (as amended). In a session with at least one column, where the string form of no
  column name and of no cell has a comma or a newline, the export hands over a text
  whose lines are the column names joined by commas, then the cells of each projected
  row joined by commas; re-parsing the text gives back the string forms of the column
  names and of the cells of the projected rows (nothing for an empty slot).
\<close>

theorem export_roundtrip:
  assumes cols: "columns s = Some cols"
    and ne: "cols \<noteq> []"
    and pc: "\<forall>c \<in> set (cells cols). plain (toString E c)"
    and pr: "\<forall>row \<in> set (data s). \<forall>c \<in> set (cells row). plain (toString E c)"
  shows "\<exists>text. exportToCSV E s = (Some text, []) \<and>
           split_on newline text =
             join [comma] (map (slotString E) cols) #
             map (\<lambda>row. join [comma] (map (slotString E) row)) (filteredData E s) \<and>
           reparse text = map (map (slotString E)) (cols # filteredData E s)"
proof -
  let ?rows = "filteredData E s"
  let ?line = "\<lambda>r. join [comma] (map (slotString E) r)"
  let ?text = "csvContent E cols ?rows"
  have sub: "set ?rows \<subseteq> set (data s)" by (auto simp: filteredData_def)
  have prows: "\<forall>r \<in> set (cols # ?rows). \<forall>c \<in> set (cells r). plain (toString E c)"
    using pc pr sub by auto
  have nerows: "\<forall>r \<in> set (cols # ?rows). r \<noteq> []"
    using ne filteredData_rows_have_cells cells_Nil_row by auto
  have "\<forall>l \<in> set (map ?line (cols # ?rows)). newline \<notin> set l"
    using prows line_no_newline by auto
  then have "split_on newline (join [newline] (map ?line (cols # ?rows))) = map ?line (cols # ?rows)"
    by (intro split_on_join) simp_all
  then have lines: "split_on newline ?text = map ?line (cols # ?rows)"
    by (simp add: csvContent_def)
  have "map (split_on comma) (map ?line (cols # ?rows)) = map (map (slotString E)) (cols # ?rows)"
    unfolding map_map
  proof (rule map_cong [OF refl])
    fix r assume "r \<in> set (cols # ?rows)"
    then have "r \<noteq> []" and "\<forall>c \<in> set (cells r). plain (toString E c)"
      using prows nerows by blast+
    then show "(split_on comma \<circ> ?line) r = map (slotString E) r"
      by (simp add: line_roundtrip)
  qed
  with lines have "reparse ?text = map (map (slotString E)) (cols # ?rows)"
    by (simp add: reparse_def)
  moreover have "exportToCSV E s = (Some ?text, [])"
    using cols by (simp add: exportToCSV_def)
  ultimately show ?thesis using lines by simp
qed

text \<open>A run of C6 as amended: the export of the people sheet and its re-parse.\<close>

theorem export_roundtrip_witness:
  "columns (loaded ''people'') = Some (dense [Str ''Name'', Str ''Age'']) \<and>
   exportToCSV ascii_engine (loaded ''people'') =
     (Some ''Name,Age\<newline>Bob,30\<newline>Ann,25'', []) \<and>
   reparse ''Name,Age\<newline>Bob,30\<newline>Ann,25'' =
     [[''Name'', ''Age''], [''Bob'', ''30''], [''Ann'', ''25'']]"
proof -
  have 1: "columns (loaded ''people'') = Some (dense [Str ''Name'', Str ''Age''])"
    by (simp add: loaded_people)
  have 2: "dense [Str ''Name'', Str ''Age''] \<noteq> []"
    by (simp add: dense_def)
  have 3: "\<forall>c \<in> set (cells (dense [Str ''Name'', Str ''Age''])). plain (toString ascii_engine c)"
    by (simp add: cells_dense plain_def comma_def newline_def)
  have 4: "\<forall>row \<in> set (data (loaded ''people'')).
             \<forall>c \<in> set (cells row). plain (toString ascii_engine c)"
    by (simp add: loaded_people cells_dense plain_def comma_def newline_def ascii_engine_simps
        show_number_def show_nat.simps)
  have 5: "exportToCSV ascii_engine (loaded ''people'') =
      (Some ''Name,Age\<newline>Bob,30\<newline>Ann,25'', [])"
    by (simp add: exportToCSV_def csvContent_def filteredData_def loaded_people cells_dense
        ascii_engine_simps str_includes_Nil)
       (simp add: dense_def ascii_engine_simps show_number_def show_nat.simps newline_def
         comma_def)
  have 6: "filteredData ascii_engine (loaded ''people'') =
      [dense [Str ''Bob'', Num 30], dense [Str ''Ann'', Num 25]]"
    by (simp add: filteredData_def loaded_people cells_dense ascii_engine_simps str_includes_Nil)
  from export_roundtrip [OF 1 2 3 4] 1 5 show ?thesis
    by (simp add: 6 dense_def ascii_engine_simps show_number_def show_nat.simps)
qed

text \<open>
  C6 as stated fails: the first line of the headless sheet is blank, so the session
  has no column and one row; no string has a comma or a newline, the export is an
  empty line and the line \<open>a\<close>, and its re-parse has one column with the empty name,
  where the session has none.
\<close>

theorem export_roundtrip_counterexample:
  "columns (loaded ''headless'') = Some [] \<and>
   data (loaded ''headless'') = [[Some (Str ''a'')]] \<and>
   plain (toString ascii_engine (Str ''a'')) \<and>
   exportToCSV ascii_engine (loaded ''headless'') = (Some ''\<newline>a'', []) \<and>
   reparse ''\<newline>a'' = [[[]], [''a'']] \<and>
   map (map (slotString ascii_engine)) ([] # filteredData ascii_engine (loaded ''headless'')) =
     [[], [''a'']] \<and>
   reparse ''\<newline>a'' \<noteq>
     map (map (slotString ascii_engine)) ([] # filteredData ascii_engine (loaded ''headless''))"
  by (simp add: loaded_headless exportToCSV_def csvContent_def filteredData_def reparse_def
      plain_def dense_def ascii_engine_simps str_includes_Nil newline_def comma_def)

section \<open>Sorting\<close>

text \<open>
  C3. After handleSort on \<open>k\<close> the active column is \<open>k\<close>; the direction is the flip
  of the old one when \<open>k\<close> was the active column, and ascending when another column,
  or none, was active.
\<close>

theorem handleSort_toggle:
  "sortConfig (fst (handleSort E k s)) =
     \<lparr>key = Some k,
      direction = (if key (sortConfig s) = Some k then flip (direction (sortConfig s)) else Asc)\<rparr>"
  by (cases "direction (sortConfig s)") (simp_all add: handleSort_def Let_def split: option.splits)

text \<open>
  A run of C3: \<open>Age\<close> with no sort active, \<open>Age\<close> again, \<open>Age\<close> a third time,
  then \<open>Name\<close>.
\<close>

theorem handleSort_toggle_witness:
  "sortConfig (fst (handleSort ascii_engine (Str ''Age'') (loaded ''people''))) =
     \<lparr>key = Some (Str ''Age''), direction = Asc\<rparr> \<and>
   sortConfig (fst (handleSort ascii_engine (Str ''Age'')
     ((loaded ''people'')\<lparr>sortConfig := \<lparr>key = Some (Str ''Age''), direction = Asc\<rparr>\<rparr>))) =
     \<lparr>key = Some (Str ''Age''), direction = Desc\<rparr> \<and>
   sortConfig (fst (handleSort ascii_engine (Str ''Age'')
     ((loaded ''people'')\<lparr>sortConfig := \<lparr>key = Some (Str ''Age''), direction = Desc\<rparr>\<rparr>))) =
     \<lparr>key = Some (Str ''Age''), direction = Asc\<rparr> \<and>
   sortConfig (fst (handleSort ascii_engine (Str ''Name'')
     ((loaded ''people'')\<lparr>sortConfig := \<lparr>key = Some (Str ''Age''), direction = Desc\<rparr>\<rparr>))) =
     \<lparr>key = Some (Str ''Name''), direction = Asc\<rparr>"
  using handleSort_toggle [of ascii_engine "Str ''Age''" "loaded ''people''"]
    handleSort_toggle [of ascii_engine "Str ''Age''"
      "(loaded ''people'')\<lparr>sortConfig := \<lparr>key = Some (Str ''Age''), direction = Asc\<rparr>\<rparr>"]
    handleSort_toggle [of ascii_engine "Str ''Age''"
      "(loaded ''people'')\<lparr>sortConfig := \<lparr>key = Some (Str ''Age''), direction = Desc\<rparr>\<rparr>"]
    handleSort_toggle [of ascii_engine "Str ''Name''"
      "(loaded ''people'')\<lparr>sortConfig := \<lparr>key = Some (Str ''Age''), direction = Desc\<rparr>\<rparr>"]
  by (simp add: loaded_people)

lemma set_insort_cmp: "set (insort_cmp c x ys) = insert x (set ys)"
  by (induction ys) auto

lemma mset_insort_cmp: "mset (insort_cmp c x ys) = add_mset x (mset ys)"
  by (induction ys) auto

lemma insertion_sort_Nil: "insertion_sort c [] = []"
  by (simp add: insertion_sort_def)

lemma insertion_sort_Cons: "insertion_sort c (x # xs) = insort_cmp c x (insertion_sort c xs)"
  by (simp add: insertion_sort_def)

lemma mset_insertion_sort: "mset (insertion_sort c xs) = mset xs"
  by (induction xs) (simp_all add: insertion_sort_Nil insertion_sort_Cons mset_insort_cmp)

lemma insort_cmp_map_snd:
  "map snd (insort_cmp (\<lambda>u v. c (snd u) (snd v)) z zs) = insort_cmp c (snd z) (map snd zs)"
  by (induction zs) auto

lemma insertion_sort_map_snd:
  "map snd (insertion_sort (\<lambda>u v. c (snd u) (snd v)) zs) = insertion_sort c (map snd zs)"
  by (induction zs) (simp_all add: insertion_sort_Nil insertion_sort_Cons insort_cmp_map_snd)

text \<open>
  Inserting a row whose old position is before those of all rows of the sorted rest
  keeps the invariant: the new row passes a row only if the comparator said so.
\<close>

lemma insort_cmp_tagged:
  assumes "sorted_wrt (swapped_only_if_greater c) zs" and "\<forall>y \<in> set zs. fst z < fst y"
  shows "sorted_wrt (swapped_only_if_greater c) (insort_cmp (\<lambda>u v. c (snd u) (snd v)) z zs)"
  using assms
proof (induction zs)
  case Nil
  then show ?case by simp
next
  case (Cons y ys)
  show ?case
  proof (cases "c (snd z) (snd y) \<le> 0")
    case True
    have "\<forall>v \<in> set (y # ys). swapped_only_if_greater c z v"
      using Cons.prems(2) by (auto simp: swapped_only_if_greater_def)
    with True Cons.prems(1) show ?thesis by simp
  next
    case False
    have 1: "sorted_wrt (swapped_only_if_greater c) (insort_cmp (\<lambda>u v. c (snd u) (snd v)) z ys)"
      using Cons.IH Cons.prems by simp
    have 2: "swapped_only_if_greater c y z"
      using False by (simp add: swapped_only_if_greater_def)
    have 3: "\<forall>v \<in> set ys. swapped_only_if_greater c y v"
      using Cons.prems(1) by simp
    from False 1 2 3 show ?thesis by (simp add: set_insort_cmp)
  qed
qed

lemma insertion_sort_tagged:
  "sorted_wrt (swapped_only_if_greater c) (insertion_sort (\<lambda>u v. c (snd u) (snd v)) (enumerate n xs))"
proof (induction xs arbitrary: n)
  case Nil
  then show ?case by (simp add: insertion_sort_Nil)
next
  case (Cons x xs)
  have "\<forall>y \<in> set (insertion_sort (\<lambda>u v. c (snd u) (snd v)) (enumerate (Suc n) xs)). n < fst y"
  proof
    fix y assume "y \<in> set (insertion_sort (\<lambda>u v. c (snd u) (snd v)) (enumerate (Suc n) xs))"
    then have "y \<in># mset (insertion_sort (\<lambda>u v. c (snd u) (snd v)) (enumerate (Suc n) xs))" by simp
    then have "y \<in> set (enumerate (Suc n) xs)" by (simp add: mset_insertion_sort)
    then show "n < fst y" by (simp add: in_set_enumerate_eq)
  qed
  with Cons.IH [of "Suc n"] show ?case
    by (simp add: insertion_sort_Cons insort_cmp_tagged)
qed

text \<open>
  The sort rearranges by a permutation \<open>p\<close> of the positions, and two rows for which
  the comparator, given the earlier one first, returns \<open>0\<close> keep their order.
\<close>

lemma insertion_sort_stable:
  fixes xs :: "'a list" and c :: "'a \<Rightarrow> 'a \<Rightarrow> number"
  shows "\<exists>p. mset p = mset [0..<length xs] \<and> insertion_sort c xs = map (nth xs) p \<and>
          (\<forall>i j. i < j \<longrightarrow> j < length xs \<longrightarrow> c (xs ! i) (xs ! j) = 0 \<longrightarrow>
             (\<exists>u v. u < v \<and> v < length p \<and> p ! u = i \<and> p ! v = j))"
proof -
  define T where "T = insertion_sort (\<lambda>u v. c (snd u) (snd v)) (enumerate 0 xs)"
  define p where "p = map fst T"
  have mT: "mset T = mset (enumerate 0 xs)"
    by (simp add: T_def mset_insertion_sort)
  have sT: "set T = set (enumerate 0 xs)"
    using mT by (metis set_mset_mset)
  have "mset p = image_mset fst (mset (enumerate 0 xs))"
    by (simp add: p_def mT [symmetric])
  also have "\<dots> = mset (map fst (enumerate 0 xs))" by (rule mset_map [symmetric])
  also have "map fst (enumerate 0 xs) = [0..<length xs]" by simp
  finally have mp: "mset p = mset [0..<length xs]" .
  have coh: "\<forall>z \<in> set T. snd z = xs ! fst z"
    using sT by (auto simp: in_set_enumerate_eq)
  have "insertion_sort c xs = map snd T"
    by (simp add: T_def insertion_sort_map_snd)
  also have "\<dots> = map (\<lambda>z. xs ! fst z) T" using coh by simp
  also have "\<dots> = map (nth xs) p" by (simp add: p_def)
  finally have dp: "insertion_sort c xs = map (nth xs) p" .
  have srt: "sorted_wrt (swapped_only_if_greater c) T"
    by (simp add: T_def insertion_sort_tagged)
  have st: "\<exists>u v. u < v \<and> v < length p \<and> p ! u = i \<and> p ! v = j"
    if ij: "i < j" and j: "j < length xs" and eq: "c (xs ! i) (xs ! j) = 0" for i j
  proof -
    have "i \<in> set p" "j \<in> set p"
      using ij j mp by (metis atLeastLessThan_iff set_mset_mset set_upt zero_le order.strict_trans)+
    then obtain u v where u: "u < length p" "p ! u = i" and v: "v < length p" "p ! v = j"
      by (auto simp: in_set_conv_nth)
    have "u \<noteq> v" using u v ij by auto
    moreover have "\<not> v < u"
    proof
      assume vu: "v < u"
      have lT: "length p = length T" by (simp add: p_def)
      from srt vu u(1) have "swapped_only_if_greater c (T ! v) (T ! u)"
        by (simp add: sorted_wrt_iff_nth_less lT [symmetric])
      moreover have fu: "fst (T ! u) = i" and fv: "fst (T ! v) = j"
        using u v by (simp_all add: p_def)
      moreover have "T ! u \<in> set T" and "T ! v \<in> set T"
        using u(1) v(1) by (simp_all add: lT)
      then have "snd (T ! u) = xs ! i" and "snd (T ! v) = xs ! j"
        using coh fu fv by auto
      ultimately have "0 < c (xs ! i) (xs ! j)"
        using ij by (simp add: swapped_only_if_greater_def)
      with eq show False by simp
    qed
    ultimately have "u < v" by simp
    with u v show ?thesis by blast
  qed
  from mp dp st show ?thesis by blast
qed

lemma consistent_subset: "consistent cmp S \<Longrightarrow> T \<subseteq> S \<Longrightarrow> consistent cmp T"
  unfolding consistent_def by blast

lemma consistent_refl: "consistent cmp S \<Longrightarrow> a \<in> S \<Longrightarrow> cmp a a = 0"
  unfolding consistent_def by blast

lemma consistent_sym: "consistent cmp S \<Longrightarrow> a \<in> S \<Longrightarrow> b \<in> S \<Longrightarrow> cmp a b = 0 \<Longrightarrow> cmp b a = 0"
  unfolding consistent_def by blast

lemma consistent_less_trans:
  "consistent cmp S \<Longrightarrow> a \<in> S \<Longrightarrow> b \<in> S \<Longrightarrow> c \<in> S \<Longrightarrow>
   cmp a b < 0 \<Longrightarrow> cmp b c < 0 \<Longrightarrow> cmp a c < 0"
  unfolding consistent_def by blast

lemma consistent_eq_trans:
  "consistent cmp S \<Longrightarrow> a \<in> S \<Longrightarrow> b \<in> S \<Longrightarrow> c \<in> S \<Longrightarrow>
   cmp a b = 0 \<Longrightarrow> cmp b c = 0 \<Longrightarrow> cmp a c = 0"
  unfolding consistent_def by blast

lemma consistent_less_greater:
  assumes "consistent cmp S" "a \<in> S" "b \<in> S" "cmp a b < 0"
  shows "0 < cmp b a"
proof (rule ccontr)
  assume "\<not> 0 < cmp b a"
  then consider "cmp b a = 0" | "cmp b a < 0" by linarith
  then show False
  proof cases
    case 1
    then have "cmp a b = 0" using assms consistent_sym by metis
    with assms(4) show False by simp
  next
    case 2
    then have "cmp a a < 0" using assms consistent_less_trans by metis
    moreover have "cmp a a = 0" using assms consistent_refl by metis
    ultimately show False by simp
  qed
qed

lemma consistent_greater_less:
  assumes "consistent cmp S" "a \<in> S" "b \<in> S" "0 < cmp a b"
  shows "cmp b a < 0"
proof (rule ccontr)
  assume "\<not> cmp b a < 0"
  then consider "cmp b a = 0" | "0 < cmp b a" by linarith
  then show False
  proof cases
    case 1
    then have "cmp a b = 0" using assms consistent_sym by metis
    with assms(4) show False by simp
  next
    case 2
    have "\<forall>a \<in> S. \<forall>b \<in> S. \<forall>c \<in> S. 0 < cmp a b \<and> 0 < cmp b c \<longrightarrow> 0 < cmp a c"
      using assms(1) unfolding consistent_def by blast
    with assms 2 have "0 < cmp a a" by blast
    moreover have "cmp a a = 0" using assms consistent_refl by metis
    ultimately show False by simp
  qed
qed

lemma consistent_le_trans:
  assumes c: "consistent cmp S" and m: "a \<in> S" "b \<in> S" "c \<in> S"
    and ab: "cmp a b \<le> 0" and bc: "cmp b c \<le> 0"
  shows "cmp a c \<le> 0"
proof (rule ccontr)
  assume "\<not> cmp a c \<le> 0"
  then have ac: "0 < cmp a c" by simp
  then have ca: "cmp c a < 0" using c m consistent_greater_less by metis
  consider "cmp a b < 0" | "cmp a b = 0" using ab by linarith
  then show False
  proof cases
    case 1
    with ca have "cmp c b < 0" using c m consistent_less_trans by metis
    then have "0 < cmp b c" using c m consistent_less_greater by metis
    with bc show False by simp
  next
    case 2
    consider "cmp b c < 0" | "cmp b c = 0" using bc by linarith
    then show False
    proof cases
      case 1
      with ca have "cmp b a < 0" using c m consistent_less_trans by metis
      moreover have "cmp b a = 0" using 2 c m consistent_sym by metis
      ultimately show False by simp
    next
      case 2
      with \<open>cmp a b = 0\<close> have "cmp a c = 0" using c m consistent_eq_trans by metis
      with ac show False by simp
    qed
  qed
qed


lemma insort_cmp_sorted:
  assumes "consistent cmp (insert x (set ys))" and "sorted_wrt (\<lambda>a b. cmp a b \<le> 0) ys"
  shows "sorted_wrt (\<lambda>a b. cmp a b \<le> 0) (insort_cmp cmp x ys)"
  using assms
proof (induction ys)
  case Nil
  then show ?case by simp
next
  case (Cons y ys)
  let ?S = "insert x (set (y # ys))"
  have c: "consistent cmp ?S" using Cons.prems(1) .
  show ?case
  proof (cases "cmp x y \<le> 0")
    case True
    have "cmp x z \<le> 0" if "z \<in> set ys" for z
    proof -
      have "cmp y z \<le> 0" using Cons.prems(2) that by simp
      with True show ?thesis
        using consistent_le_trans [OF c, of x y z] that by simp
    qed
    with True Cons.prems(2) show ?thesis by simp
  next
    case False
    then have "0 < cmp x y" by simp
    then have "cmp y x < 0" using consistent_greater_less [OF c, of x y] by simp
    then have yx: "cmp y x \<le> 0" by simp
    have "consistent cmp (insert x (set ys))"
      using c by (rule consistent_subset) auto
    then have "sorted_wrt (\<lambda>a b. cmp a b \<le> 0) (insort_cmp cmp x ys)"
      using Cons.IH Cons.prems(2) by simp
    with False yx Cons.prems(2) show ?thesis by (simp add: set_insort_cmp)
  qed
qed

lemma insertion_sort_sorted:
  "consistent cmp (set xs) \<Longrightarrow> sorted_wrt (\<lambda>a b. cmp a b \<le> 0) (insertion_sort cmp xs)"
proof (induction xs)
  case Nil
  then show ?case by (simp add: insertion_sort_Nil)
next
  case (Cons x xs)
  have s: "set (insertion_sort cmp xs) = set xs"
    by (metis mset_insertion_sort set_mset_mset)
  have "consistent cmp (set xs)"
    using Cons.prems by (rule consistent_subset) auto
  then have "sorted_wrt (\<lambda>a b. cmp a b \<le> 0) (insertion_sort cmp xs)"
    using Cons.IH by simp
  moreover have "consistent cmp (insert x (set (insertion_sort cmp xs)))"
    using Cons.prems by (simp add: s)
  ultimately show ?case
    by (simp add: insertion_sort_Cons insort_cmp_sorted)
qed

lemma insertion_sort_sorted_stably:
  "consistent cmp (set xs) \<Longrightarrow> sorted_stably cmp xs (insertion_sort cmp xs)"
  using insertion_sort_stable [of xs cmp] insertion_sort_sorted [of cmp xs]
  unfolding sorted_stably_def by blast

lemma conforms_ascii_engine: "conforms ascii_engine"
  by (simp add: conforms_def ascii_engine_simps insertion_sort_sorted_stably)

lemma descending_sorted_wrt:
  "consistent cmp (set xs) \<Longrightarrow> descending cmp xs \<Longrightarrow> sorted_wrt (\<lambda>a b. cmp b a < 0) xs"
proof (induction cmp xs rule: descending.induct)
  case (1 cmp x y zs)
  have c: "consistent cmp (set (x # y # zs))" using "1.prems"(1) .
  have "consistent cmp (set (y # zs))"
    using c by (rule consistent_subset) auto
  then have tl: "sorted_wrt (\<lambda>a b. cmp b a < 0) (y # zs)"
    using "1.IH" "1.prems"(2) by simp
  have yx: "cmp y x < 0" using "1.prems"(2) by simp
  have "cmp w x < 0" if "w \<in> set zs" for w
  proof -
    have "cmp w y < 0" using tl that by simp
    with yx show ?thesis
      using consistent_less_trans [OF c, of w y x] that by simp
  qed
  with yx tl show ?case by simp
qed simp_all

lemma rev_sorted_stably:
  assumes c: "consistent cmp (set xs)" and d: "descending cmp xs"
  shows "sorted_stably cmp xs (rev xs)"
proof -
  let ?p = "rev [0..<length xs]"
  have s: "sorted_wrt (\<lambda>a b. cmp b a < 0) xs"
    using c d by (rule descending_sorted_wrt)
  have 1: "mset ?p = mset [0..<length xs]" by simp
  have 2: "rev xs = map (nth xs) ?p"
    by (simp add: rev_map [symmetric] map_nth)
  have "sorted_wrt (\<lambda>a b. cmp b a \<le> 0) xs"
    using s by (rule sorted_wrt_mono_rel [rotated]) simp
  then have 3: "sorted_wrt (\<lambda>a b. cmp a b \<le> 0) (rev xs)"
    by (simp add: sorted_wrt_rev)
  have 4: "\<exists>u v. u < v \<and> v < length ?p \<and> ?p ! u = i \<and> ?p ! v = j"
    if "i < j" "j < length xs" "cmp (xs ! i) (xs ! j) = 0" for i j
  proof -
    have "cmp (xs ! j) (xs ! i) < 0"
      using s that(1,2) by (simp add: sorted_wrt_iff_nth_less)
    then have "0 < cmp (xs ! i) (xs ! j)"
      using consistent_less_greater [OF c, of "xs ! j" "xs ! i"] that(1,2) by simp
    with that(3) show ?thesis by simp
  qed
  from 1 2 3 4 show ?thesis
    unfolding sorted_stably_def by blast
qed

lemma conforms_run_engine: "conforms run_engine"
  by (simp add: conforms_def run_engine_simps run_sort_def rev_sorted_stably
      insertion_sort_sorted_stably)

lemma compare_rows_rule:
  "compare_rows E cols k d a b =
     (if d = Asc
      then compare_cells E (elem_at a (indexOf cols k)) (elem_at b (indexOf cols k))
      else compare_cells E (elem_at b (indexOf cols k)) (elem_at a (indexOf cols k)))"
  by (simp add: compare_rows_def Let_def split: option.splits cell.splits)

lemma handleSort_data:
  "columns s = Some cols \<Longrightarrow>
   data (fst (handleSort E k s)) =
     arraySort E (compare_rows E cols k (direction (sortConfig (fst (handleSort E k s))))) (data s)"
  by (simp add: handleSort_def Let_def)

lemma numeric_column_consistent:
  assumes "\<forall>r \<in> S. \<exists>x. elem_at r (indexOf cols k) = Some (Num x)"
  shows "consistent (compare_rows E cols k d) S"
  unfolding consistent_def
proof (intro ballI)
  fix a b c assume "a \<in> S" "b \<in> S" "c \<in> S"
  then obtain x y z where
    "elem_at a (indexOf cols k) = Some (Num x)"
    "elem_at b (indexOf cols k) = Some (Num y)"
    "elem_at c (indexOf cols k) = Some (Num z)"
    using assms by blast
  then show "compare_rows E cols k d a a = 0 \<and>
        (compare_rows E cols k d a b = 0 \<longrightarrow> compare_rows E cols k d b a = 0) \<and>
        (compare_rows E cols k d a b = 0 \<and> compare_rows E cols k d b c = 0 \<longrightarrow>
           compare_rows E cols k d a c = 0) \<and>
        (compare_rows E cols k d a b < 0 \<and> compare_rows E cols k d b c < 0 \<longrightarrow>
           compare_rows E cols k d a c < 0) \<and>
        (0 < compare_rows E cols k d a b \<and> 0 < compare_rows E cols k d b c \<longrightarrow>
           0 < compare_rows E cols k d a c)"
    by (simp add: compare_rows_rule)
qed

text \<open>
  C4 (as amended). In a session with columns, on an engine that conforms to
  ECMAScript, let \<open>d\<close> be the direction that handleSort on \<open>k\<close> sets and \<open>cmp\<close> the
  comparator it sorts with. \<open>cmp\<close> compares the cells of the two rows in column \<open>k\<close>
  by the comparison rule (two numbers by their difference, every other pair by the
  locale-aware order of the string forms), the first row against the second when
  ascending, the second against the first when descending. \<open>cmp\<close> is consistent for
  the rows when each has a number in column \<open>k\<close>. Whenever \<open>cmp\<close> is consistent for
  the rows, the new rows are the old rows in the order of \<open>cmp\<close> (no row compares
  greater than a later one), rearranged by a permutation \<open>p\<close> of their positions, and
  for rows at old positions \<open>i < j\<close> whose cells compare equal, row \<open>i\<close> still stands
  before row \<open>j\<close>.
\<close>

theorem handleSort_compares_and_sorts_stably:
  fixes E :: engine and k :: cell and s :: session and cols :: row
  defines "d \<equiv> direction (sortConfig (fst (handleSort E k s)))"
  defines "cmp \<equiv> compare_rows E cols k d"
  defines "cell_of \<equiv> \<lambda>r. elem_at r (indexOf cols k)"
  assumes eng: "conforms E" and cols: "columns s = Some cols"
  shows "(\<forall>a b. cmp a b =
            (if d = Asc then compare_cells E (cell_of a) (cell_of b)
             else compare_cells E (cell_of b) (cell_of a))) \<and>
         ((\<forall>r \<in> set (data s). \<exists>x. cell_of r = Some (Num x)) \<longrightarrow>
            consistent cmp (set (data s))) \<and>
         (consistent cmp (set (data s)) \<longrightarrow>
            sorted_wrt (\<lambda>a b. cmp a b \<le> 0) (data (fst (handleSort E k s))) \<and>
            (\<exists>p. mset p = mset [0..<length (data s)] \<and>
                 data (fst (handleSort E k s)) = map (nth (data s)) p \<and>
                 (\<forall>i j. i < j \<longrightarrow> j < length (data s) \<longrightarrow>
                    cmp (data s ! i) (data s ! j) = 0 \<longrightarrow>
                    (\<exists>u v. u < v \<and> v < length p \<and> p ! u = i \<and> p ! v = j))))"
proof (intro conjI impI)
  show "\<forall>a b. cmp a b =
            (if d = Asc then compare_cells E (cell_of a) (cell_of b)
             else compare_cells E (cell_of b) (cell_of a))"
    unfolding cmp_def cell_of_def by (simp only: compare_rows_rule) simp
next
  assume "\<forall>r \<in> set (data s). \<exists>x. cell_of r = Some (Num x)"
  then show "consistent cmp (set (data s))"
    unfolding cmp_def cell_of_def by (rule numeric_column_consistent)
next
  assume con: "consistent cmp (set (data s))"
  have new: "data (fst (handleSort E k s)) = arraySort E cmp (data s)"
    unfolding cmp_def d_def using cols by (rule handleSort_data)
  from eng con have st: "sorted_stably cmp (data s) (arraySort E cmp (data s))"
    unfolding conforms_def by blast
  from st show "sorted_wrt (\<lambda>a b. cmp a b \<le> 0) (data (fst (handleSort E k s)))"
    unfolding sorted_stably_def new by blast
  from st show "\<exists>p. mset p = mset [0..<length (data s)] \<and>
                 data (fst (handleSort E k s)) = map (nth (data s)) p \<and>
                 (\<forall>i j. i < j \<longrightarrow> j < length (data s) \<longrightarrow>
                    cmp (data s ! i) (data s ! j) = 0 \<longrightarrow>
                    (\<exists>u v. u < v \<and> v < length p \<and> p ! u = i \<and> p ! v = j))"
    unfolding sorted_stably_def new by blast
qed

text \<open>
  A run of C4 as amended, on the engine that sorts by insertion: the staff sheet
  sorted on \<open>Age\<close>, a column of numbers, ascending and then descending; Bob and Cy
  are both 30, and Bob stays before Cy in both. The people sheet, sorted on \<open>Age\<close>
  twice, is the specification's scenario.
\<close>

theorem handleSort_compares_and_sorts_stably_witness:
  "conforms ascii_engine \<and>
   columns (loaded ''staff'') = Some (dense [Str ''Name'', Str ''Age'']) \<and>
   data (loaded ''staff'') =
     [dense [Str ''Bob'', Num 30], dense [Str ''Ann'', Num 25], dense [Str ''Cy'', Num 30]] \<and>
   consistent (compare_rows ascii_engine (dense [Str ''Name'', Str ''Age'']) (Str ''Age'') Asc)
     (set (data (loaded ''staff''))) \<and>
   data (fst (handleSort ascii_engine (Str ''Age'') (loaded ''staff''))) =
     [dense [Str ''Ann'', Num 25], dense [Str ''Bob'', Num 30], dense [Str ''Cy'', Num 30]] \<and>
   data (fst (handleSort ascii_engine (Str ''Age'')
           (fst (handleSort ascii_engine (Str ''Age'') (loaded ''staff''))))) =
     [dense [Str ''Bob'', Num 30], dense [Str ''Cy'', Num 30], dense [Str ''Ann'', Num 25]] \<and>
   data (fst (handleSort ascii_engine (Str ''Age'') (loaded ''people''))) =
     [dense [Str ''Ann'', Num 25], dense [Str ''Bob'', Num 30]] \<and>
   data (fst (handleSort ascii_engine (Str ''Age'')
           (fst (handleSort ascii_engine (Str ''Age'') (loaded ''people''))))) =
     [dense [Str ''Bob'', Num 30], dense [Str ''Ann'', Num 25]]"
proof -
  have e: "conforms ascii_engine"
    by (rule conforms_ascii_engine)
  have h: "columns (loaded ''staff'') = Some (dense [Str ''Name'', Str ''Age''])"
    by (simp add: loaded_staff)
  have d: "direction (sortConfig (fst (handleSort ascii_engine (Str ''Age'') (loaded ''staff'')))) = Asc"
    by (simp add: loaded_staff handleSort_def Let_def)
  have n: "\<forall>r \<in> set (data (loaded ''staff'')).
             \<exists>x. elem_at r (indexOf (dense [Str ''Name'', Str ''Age'']) (Str ''Age'')) = Some (Num x)"
    by (simp add: loaded_staff dense_def elem_at_def)
  from handleSort_compares_and_sorts_stably [OF e h, of "Str ''Age''"] n
  have c: "consistent (compare_rows ascii_engine (dense [Str ''Name'', Str ''Age'']) (Str ''Age'') Asc)
     (set (data (loaded ''staff'')))"
    by (simp add: d)
  have r: "data (fst (handleSort ascii_engine (Str ''Age'') (loaded ''staff''))) =
     [dense [Str ''Ann'', Num 25], dense [Str ''Bob'', Num 30], dense [Str ''Cy'', Num 30]] \<and>
   data (fst (handleSort ascii_engine (Str ''Age'')
           (fst (handleSort ascii_engine (Str ''Age'') (loaded ''staff''))))) =
     [dense [Str ''Bob'', Num 30], dense [Str ''Cy'', Num 30], dense [Str ''Ann'', Num 25]] \<and>
   data (fst (handleSort ascii_engine (Str ''Age'') (loaded ''people''))) =
     [dense [Str ''Ann'', Num 25], dense [Str ''Bob'', Num 30]] \<and>
   data (fst (handleSort ascii_engine (Str ''Age'')
           (fst (handleSort ascii_engine (Str ''Age'') (loaded ''people''))))) =
     [dense [Str ''Bob'', Num 30], dense [Str ''Ann'', Num 25]]"
    by (simp add: loaded_staff loaded_people handleSort_def insertion_sort_def compare_rows_def
        elem_at_def dense_def ascii_engine_simps Let_def)
  from e h c r show ?thesis
    by (simp add: loaded_staff)
qed

text \<open>
  C4 as stated fails. The column of the mixed sheet holds the numbers 10 and 9 and
  the text \<open>10\<close>: the number 10 and the text compare equal (as strings), 9 compares
  less than 10 (as numbers) and the text less than 9 (as strings), so the comparator
  is not consistent. The engine that looks for runs conforms to ECMAScript; it finds
  the rows descending and reverses them, and the text now stands before the number 10
  that it followed: a tie has changed its order. The engine that sorts by insertion
  conforms too and leaves 10 before 9.
\<close>

theorem handleSort_mixed_column_counterexample:
  "conforms run_engine \<and>
   columns (loaded ''mixed'') = Some (dense [Str ''Code'']) \<and>
   data (loaded ''mixed'') = [dense [Num 10], dense [Num 9], dense [Str ''10'']] \<and>
   compare_rows run_engine (dense [Str ''Code'']) (Str ''Code'') Asc
     (dense [Num 10]) (dense [Str ''10'']) = 0 \<and>
   compare_rows run_engine (dense [Str ''Code'']) (Str ''Code'') Asc
     (dense [Num 9]) (dense [Num 10]) < 0 \<and>
   compare_rows run_engine (dense [Str ''Code'']) (Str ''Code'') Asc
     (dense [Str ''10'']) (dense [Num 9]) < 0 \<and>
   data (fst (handleSort run_engine (Str ''Code'') (loaded ''mixed''))) =
     [dense [Str ''10''], dense [Num 9], dense [Num 10]] \<and>
   conforms ascii_engine \<and>
   data (fst (handleSort ascii_engine (Str ''Code'') (loaded ''mixed''))) =
     [dense [Num 10], dense [Str ''10''], dense [Num 9]]"
proof -
  have m: "loaded ''mixed'' =
     \<lparr>data = [dense [Num 10], dense [Num 9], dense [Str ''10'']],
      columns = Some (dense [Str ''Code'']), searchQuery = [],
      sortConfig = \<lparr>key = None, direction = Asc\<rparr>, loading = False\<rparr>"
    by (simp add: loaded_def processFile_files files_def mixed_def initial_def)
  have "data (fst (handleSort run_engine (Str ''Code'') (loaded ''mixed''))) =
     [dense [Str ''10''], dense [Num 9], dense [Num 10]]"
    by (simp add: m handleSort_def run_sort_def compare_rows_def elem_at_def dense_def
        run_engine_simps show_number_def show_nat.simps Let_def)
  moreover have "data (fst (handleSort ascii_engine (Str ''Code'') (loaded ''mixed''))) =
     [dense [Num 10], dense [Str ''10''], dense [Num 9]]"
    by (simp add: m handleSort_def insertion_sort_def compare_rows_def elem_at_def dense_def
        ascii_engine_simps show_number_def show_nat.simps Let_def)
  moreover have "compare_rows run_engine (dense [Str ''Code'']) (Str ''Code'') Asc
     (dense [Num 10]) (dense [Str ''10'']) = 0"
    "compare_rows run_engine (dense [Str ''Code'']) (Str ''Code'') Asc
     (dense [Num 9]) (dense [Num 10]) < 0"
    "compare_rows run_engine (dense [Str ''Code'']) (Str ''Code'') Asc
     (dense [Str ''10'']) (dense [Num 9]) < 0"
    by (simp_all add: compare_rows_def elem_at_def dense_def run_engine_simps show_number_def
        show_nat.simps Let_def)
  ultimately show ?thesis
    using conforms_run_engine conforms_ascii_engine by (simp add: m)
qed

section \<open>Picking a file\<close>

lemma run_presses:
  "\<exists>a'. run X (replicate n Press) a = Some a' \<and>
         in_flight a' = in_flight a @ replicate n AwaitingPicker \<and>
         (0 < n \<longrightarrow> loading (sess a')) \<and>
         data (sess a') = data (sess a) \<and> columns (sess a') = columns (sess a)"
proof (induction n arbitrary: a)
  case 0
  then show ?case by simp
next
  case (Suc n)
  from Suc [of "pickFile a"] obtain a' where
    r: "run X (replicate n Press) (pickFile a) = Some a'" and
    f: "in_flight a' = in_flight (pickFile a) @ replicate n AwaitingPicker" and
    l: "0 < n \<longrightarrow> loading (sess a')" and
    d: "data (sess a') = data (sess (pickFile a))" "columns (sess a') = columns (sess (pickFile a))"
    by blast
  have "n = 0 \<Longrightarrow> a' = pickFile a" using r by simp
  then have "loading (sess a')" using l by (cases n) (auto simp: pickFile_def)
  with r f d show ?case by (simp add: pickFile_def replicate_app_Cons_same)
qed

text \<open>
  C9 (as amended). pickFile does not read the busy flag. In every state of the app,
  whatever the flag and the calls in flight, each press of the upload button starts a
  call at once: after \<open>n + 1\<close> presses, \<open>n + 1\<close> more calls wait for the picker, the
  flag is set and the dataset is untouched.
\<close>

theorem press_starts_a_load_in_every_state:
  "\<exists>a'. run X (replicate (Suc n) Press) a = Some a' \<and>
         in_flight a' = in_flight a @ replicate (Suc n) AwaitingPicker \<and>
         loading (sess a') \<and>
         data (sess a') = data (sess a) \<and> columns (sess a') = columns (sess a)"
  using run_presses [of X "Suc n" a] by auto

text \<open>A run of C9 as amended: two presses on the fresh app.\<close>

theorem press_starts_a_load_in_every_state_witness:
  "map_option in_flight (run (table_xlsx files) [Press, Press] start) =
     Some [AwaitingPicker, AwaitingPicker] \<and>
   map_option (\<lambda>a. loading (sess a)) (run (table_xlsx files) [Press, Press] start) = Some True"
  using press_starts_a_load_in_every_state [of "table_xlsx files" 1 start]
  by (simp add: start_def pickFile_def)

text \<open>
  C9 as stated fails. A press, a file picked, and a second press while the first call
  reads its file: two loads are in flight. The second call then picks and reads the
  staff sheet: its rows are shown and the flag is cleared while the first call still
  waits. The first call ends last and its people sheet replaces the staff sheet.
\<close>

theorem single_flight_counterexample:
  "map_option in_flight (run (table_xlsx files) [Press, PickerPicked 0, Press] start) =
     Some [AwaitingRead, AwaitingPicker] \<and>
   map_option (\<lambda>a. (in_flight a, loading (sess a), columns (sess a), length (data (sess a))))
     (run (table_xlsx files)
        [Press, PickerPicked 0, Press, PickerPicked 1, ReadDone 1 ''staff''] start) =
     Some ([AwaitingRead], False, Some (dense [Str ''Name'', Str ''Age'']), 3) \<and>
   map_option (\<lambda>a. (in_flight a, loading (sess a), length (data (sess a))))
     (run (table_xlsx files)
        [Press, PickerPicked 0, Press, PickerPicked 1, ReadDone 1 ''staff'',
         ReadDone 0 ''people''] start) =
     Some ([], False, 2)"
  by (simp add: start_def initial_def pickFile_def waits_def finish_def processFile_files
      files_def staff_def people_def)

end
